theory Spec2Isabelle
  imports Main "HOL-Library.Word" "HOL-Library.Signed_Division"
    "HOL-Library.Char_ord" "HOL-Library.List_Lexorder" "HOL-Library.AList"
begin

section \<open>Go machine integers used by the model\<close>

text \<open>
  Go's \<open>int\<close> is a 64-bit two's complement integer on the platforms the repository
  targets. It is modelled as an \<open>int\<close> with the wrap-around written out.  Go's \<open>%\<close>
  truncates towards zero: it is \<open>smod\<close>.
\<close>

definition wrap64 :: "int \<Rightarrow> int" where
  "wrap64 x = (x + 2 ^ 63) mod 2 ^ 64 - 2 ^ 63"

definition MaxInt32 :: int where
  "MaxInt32 = 2 ^ 31 - 1"

section \<open>xclient: MultiServersDiscovery (src/xclient/go\_discovery.go)\<close>

text \<open>
  \<open>SelectMode\<close> is a Go \<open>int\<close> with two named constants.  The random source
  \<open>m.r\<close> is not part of the state: the value that \<open>r.Intn\<close> returns is a parameter
  of the operations that draw one.
\<close>

type_synonym SelectMode = int

definition RandomSelect :: SelectMode where
  "RandomSelect = 0"

definition RoundRobinSelect :: SelectMode where
  "RoundRobinSelect = 1"

record MultiServersDiscovery =
  servers :: "string list"
  index :: int

datatype discovery_error = NoServers | UnsupportedMode | IndexPanic

text \<open>Indexing a slice: out of range is a run-time panic.\<close>

definition slice_at :: "string list \<Rightarrow> int \<Rightarrow> discovery_error + string" where
  "slice_at xs i = (if 0 \<le> i \<and> i < int (length xs) then Inr (xs ! nat i) else Inl IndexPanic)"

text \<open>
  \<open>Get\<close>: \<open>rnd\<close> is the value of \<open>m.r.Intn(n)\<close>, read only in the random mode.
  The result is the pair of the returned value (or error) and the discovery afterwards.
\<close>

definition Get :: "MultiServersDiscovery \<Rightarrow> SelectMode \<Rightarrow> int
    \<Rightarrow> (discovery_error + string) \<times> MultiServersDiscovery" where
  "Get m mode rnd =
    (let n = int (length (servers m)) in
     if n = 0 then (Inl NoServers, m)
     else if mode = RandomSelect then (slice_at (servers m) rnd, m)
     else if mode = RoundRobinSelect then
       (case slice_at (servers m) (index m smod n) of
          Inl e \<Rightarrow> (Inl e, m)
        | Inr s \<Rightarrow> (Inr s, m\<lparr>index := wrap64 (index m + 1) smod n\<rparr>))
     else (Inl UnsupportedMode, m))"

text \<open>\<open>NewMultiServersDiscovery\<close>: \<open>rnd\<close> is the value of \<open>d.r.Intn(math.MaxInt32 - 1)\<close>.\<close>

definition NewMultiServersDiscovery :: "string list \<Rightarrow> int \<Rightarrow> MultiServersDiscovery" where
  "NewMultiServersDiscovery srvs rnd = \<lparr>servers = srvs, index = rnd\<rparr>"

text \<open>Successive round-robin calls with no \<open>Update\<close> in between, results in call order.\<close>

fun GetRoundRobin_times :: "nat \<Rightarrow> MultiServersDiscovery
    \<Rightarrow> (discovery_error + string) list \<times> MultiServersDiscovery" where
  "GetRoundRobin_times 0 m = ([], m)"
| "GetRoundRobin_times (Suc k) m =
    (case Get m RoundRobinSelect 0 of
       (r, m') \<Rightarrow> (case GetRoundRobin_times k m' of (rs, m'') \<Rightarrow> (r # rs, m'')))"

text \<open>
  The cursor values a discovery can hold: the constructor draws it from
  \<open>[0, MaxInt32 - 1)\<close> and \<open>Get\<close> stores a remainder modulo the length.
\<close>

definition cursor_ok :: "MultiServersDiscovery \<Rightarrow> bool" where
  "cursor_ok m \<longleftrightarrow> 0 \<le> index m \<and> index m < 2 ^ 63 - 1"

section \<open>registry: GoRegistry (src/registry/registry.go)\<close>

text \<open>
  Times and durations are integers (nanoseconds).  The map \<open>servers\<close> from address to
  \<open>*ServerItem\<close> is an association list from the address to the item's \<open>start\<close>;
  its order stands for the unspecified iteration order of a Go map.
\<close>

record GoRegistry =
  timeout :: int
  reg_servers :: "(string \<times> int) list"

definition putServer :: "GoRegistry \<Rightarrow> string \<Rightarrow> int \<Rightarrow> GoRegistry" where
  "putServer r addr now = r\<lparr>reg_servers := AList.update addr now (reg_servers r)\<rparr>"

text \<open>
  The loop of \<open>aliveServers\<close> over a snapshot of the entries; the state is the list
  \<open>alive\<close> and the table.  \<open>now\<close> is the value of \<open>time.Now()\<close>, taken as one
  instant for the whole call (the call holds the registry's mutex).
\<close>

fun aliveServers_loop :: "int \<Rightarrow> int \<Rightarrow> (string \<times> int) list
    \<Rightarrow> string list \<times> (string \<times> int) list \<Rightarrow> string list \<times> (string \<times> int) list" where
  "aliveServers_loop tmo now [] st = st"
| "aliveServers_loop tmo now ((addr, start) # es) (alive, tbl) =
    (if tmo = 0 \<or> start + tmo > now
     then aliveServers_loop tmo now es (alive @ [addr], tbl)
     else aliveServers_loop tmo now es (alive, AList.delete addr tbl))"

definition aliveServers :: "GoRegistry \<Rightarrow> int \<Rightarrow> string list \<times> GoRegistry" where
  "aliveServers r now =
    (case aliveServers_loop (timeout r) now (reg_servers r) ([], reg_servers r) of
       (alive, tbl) \<Rightarrow> (sort alive, r\<lparr>reg_servers := tbl\<rparr>))"

text \<open>The liveness predicate as the specification words it, and as the code tests it.\<close>

definition alive_spec :: "int \<Rightarrow> int \<Rightarrow> int \<Rightarrow> bool" where
  "alive_spec ttl now last_heartbeat \<longleftrightarrow> ttl = 0 \<or> now - last_heartbeat \<le> ttl"

definition alive_code :: "int \<Rightarrow> int \<Rightarrow> int \<Rightarrow> bool" where
  "alive_code ttl now last_heartbeat \<longleftrightarrow> ttl = 0 \<or> now - last_heartbeat < ttl"

section \<open>server: service and methodType (src/server/service.go)\<close>

text \<open>
  The part of package \<open>reflect\<close> that the service uses.  A \<open>reflect.Type\<close> is its name,
  its package path, its kind and, for the kinds that have one, its element type; two types
  are the same type when these agree.  A \<open>reflect.Value\<close> is kept as the shape that
  \<open>newArgv\<close> and \<open>newReplyv\<close> build, or as an opaque datum.
\<close>

datatype Kind = Kind_Bool | Kind_Int | Kind_String | Kind_Struct | Kind_Interface
  | Kind_Ptr | Kind_Map | Kind_Slice | Kind_Func

datatype rtype = RType (tName: string) (tPkgPath: string) (tKind: Kind) (tElem: "rtype option")

datatype rvalue = Zero rtype | EmptyMap rtype | EmptySlice rtype | PtrTo rvalue | Datum string

datatype go_panic = ReflectPanic | ProcessExit

text \<open>\<open>reflect.TypeOf((*error)(nil)).Elem()\<close>: the predeclared interface type \<open>error\<close>.\<close>

definition errorType :: rtype where
  "errorType = RType ''error'' [] Kind_Interface None"

text \<open>
  \<open>reflect.Method\<close>: the name, the function type (inputs with the receiver first,
  outputs) and the function.  The function gets the receiver, the argument and the reply
  and yields what the reply holds afterwards and the returned error (\<open>None\<close> is \<open>nil\<close>).
\<close>

record Method =
  mName :: string
  mIn :: "rtype list"
  mOut :: "rtype list"
  Func :: "rvalue \<Rightarrow> rvalue \<Rightarrow> rvalue \<Rightarrow> rvalue \<times> string option"

record methodType =
  mt_method :: Method
  ArgType :: rtype
  ReplyType :: rtype
  numCalls :: "64 word"

definition NumCalls :: "methodType \<Rightarrow> 64 word" where
  "NumCalls m = numCalls m"

definition newArgv :: "methodType \<Rightarrow> go_panic + rvalue" where
  "newArgv m =
    (if tKind (ArgType m) = Kind_Ptr
     then (case tElem (ArgType m) of None \<Rightarrow> Inl ReflectPanic | Some t \<Rightarrow> Inr (PtrTo (Zero t)))
     else Inr (Zero (ArgType m)))"

text \<open>\<open>Type.Elem\<close> panics on a type that has no element type.\<close>

definition newReplyv :: "methodType \<Rightarrow> go_panic + rvalue" where
  "newReplyv m =
    (case tElem (ReplyType m) of
       None \<Rightarrow> Inl ReflectPanic
     | Some t \<Rightarrow>
         Inr (PtrTo (if tKind t = Kind_Map then EmptyMap t
                     else if tKind t = Kind_Slice then EmptySlice t
                     else Zero t)))"

text \<open>
  \<open>s.typ\<close> is the type together with its method set, in the order \<open>Type.Method(i)\<close>
  lists it.  The map \<open>method\<close> is an association list (field \<open>smethod\<close>; \<open>styp\<close> is the field \<open>typ\<close>, and
  \<open>mt_method\<close> the field \<open>method\<close> of \<open>methodType\<close>).
\<close>

record service =
  name :: string
  styp :: rtype
  typ_methods :: "Method list"
  rcvr :: rvalue
  smethod :: "(string \<times> methodType) list"

text \<open>
  \<open>ast.IsExported\<close>: the name begins with an upper-case letter.  Only the ASCII letters
  are modelled as upper case.
\<close>

definition IsExported :: "string \<Rightarrow> bool" where
  "IsExported nm = (case nm of [] \<Rightarrow> False | c # _ \<Rightarrow> CHR ''A'' \<le> c \<and> c \<le> CHR ''Z'')"

definition isExportedOrBuiltinType :: "rtype \<Rightarrow> bool" where
  "isExportedOrBuiltinType t \<longleftrightarrow> IsExported (tName t) \<or> tPkgPath t = []"

text \<open>The body of the loop of \<open>registerMethods\<close> for one method, and the loop.\<close>

definition registerMethod :: "Method \<Rightarrow> (string \<times> methodType) list \<Rightarrow> (string \<times> methodType) list" where
  "registerMethod mth tbl =
    (if length (mIn mth) \<noteq> 3 \<or> length (mOut mth) \<noteq> 1 \<or> mOut mth ! 0 \<noteq> errorType then tbl
     else let argType = mIn mth ! 1; replyType = mIn mth ! 2 in
       if \<not> isExportedOrBuiltinType argType \<or> \<not> isExportedOrBuiltinType replyType then tbl
       else AList.update (mName mth)
              \<lparr>mt_method = mth, ArgType = argType, ReplyType = replyType, numCalls = 0\<rparr> tbl)"

definition registerMethods :: "service \<Rightarrow> service" where
  "registerMethods s = s\<lparr>smethod := fold registerMethod (typ_methods s) []\<rparr>"

text \<open>
  \<open>call\<close>: the counter is incremented before the method is invoked.  The result is the
  descriptor afterwards, what the reply holds, and the returned error.
\<close>

definition call :: "service \<Rightarrow> methodType \<Rightarrow> rvalue \<Rightarrow> rvalue \<Rightarrow> methodType \<times> rvalue \<times> string option" where
  "call s m argv replyv =
    (let m' = m\<lparr>numCalls := numCalls m + 1\<rparr>;
         (reply', errInter) = Func (mt_method m') (rcvr s) argv replyv
     in (m', reply', errInter))"

text \<open>A finite sequence of invocations of one method, each with its argument and reply.\<close>

fun call_all :: "service \<Rightarrow> methodType \<Rightarrow> (rvalue \<times> rvalue) list
    \<Rightarrow> methodType \<times> (rvalue \<times> string option) list" where
  "call_all s m [] = (m, [])"
| "call_all s m ((argv, replyv) # invs) =
    (case call s m argv replyv of
       (m', reply', e) \<Rightarrow> (case call_all s m' invs of (m'', rs) \<Rightarrow> (m'', (reply', e) # rs)))"

definition successes :: "(rvalue \<times> string option) list \<Rightarrow> nat" where
  "successes rs = length (filter (\<lambda>r. snd r = None) rs)"

definition failures :: "(rvalue \<times> string option) list \<Rightarrow> nat" where
  "failures rs = length (filter (\<lambda>r. snd r \<noteq> None) rs)"

text \<open>
  \<open>newService\<close>: \<open>rtyp\<close> is \<open>reflect.TypeOf(rcvr)\<close> with its method set and
  \<open>iname\<close> is \<open>reflect.Indirect(s.rcvr).Type().Name()\<close>.  \<open>log.Fatalf\<close> ends the
  process.
\<close>

definition newService :: "rvalue \<Rightarrow> rtype \<Rightarrow> Method list \<Rightarrow> string \<Rightarrow> go_panic + service" where
  "newService rc rtyp mths iname =
    (let s = \<lparr>name = iname, styp = rtyp, typ_methods = mths, rcvr = rc, smethod = []\<rparr> in
     if \<not> IsExported (name s) then Inl ProcessExit else Inr (registerMethods s))"

text \<open>The eligibility invariant of the specification, for a method that reflection lists.\<close>

definition eligible_spec :: "Method \<Rightarrow> bool" where
  "eligible_spec mth \<longleftrightarrow>
     IsExported (mName mth) \<and> length (mIn mth) = 3 \<and> length (mOut mth) = 1
     \<and> mOut mth ! 0 = errorType
     \<and> isExportedOrBuiltinType (mIn mth ! 1) \<and> isExportedOrBuiltinType (mIn mth ! 2)
     \<and> tKind (mIn mth ! 2) = Kind_Ptr"

text \<open>
  A receiver type \<open>*Foo\<close> whose one method is
  \<open>func (f *Foo) Bad(arg int, reply int) error\<close>, returning \<open>nil\<close>.
\<close>

definition int_type :: rtype where
  "int_type = RType ''int'' [] Kind_Int None"

definition Foo_ptr :: rtype where
  "Foo_ptr = RType [] [] Kind_Ptr (Some (RType ''Foo'' ''main'' Kind_Int None))"

definition Bad_method :: Method where
  "Bad_method = \<lparr>mName = ''Bad'', mIn = [Foo_ptr, int_type, int_type], mOut = [errorType],
     Func = (\<lambda>r a reply. (reply, None))\<rparr>"

text \<open>A method \<open>func (f *Foo) Fail(arg int, reply *int) error\<close> that returns an error.\<close>

definition int_ptr :: rtype where
  "int_ptr = RType [] [] Kind_Ptr (Some int_type)"

definition Fail_method :: Method where
  "Fail_method = \<lparr>mName = ''Fail'', mIn = [Foo_ptr, int_type, int_ptr], mOut = [errorType],
     Func = (\<lambda>r a reply. (reply, Some ''failed''))\<rparr>"

definition Foo_service :: service where
  "Foo_service = registerMethods
     \<lparr>name = ''Foo'', styp = Foo_ptr, typ_methods = [Bad_method, Fail_method],
      rcvr = PtrTo (Zero (RType ''Foo'' ''main'' Kind_Int None)), smethod = []\<rparr>"

section \<open>registry: the Heartbeat helper (src/registry/registry.go)\<close>

definition Second :: int where
  "Second = 1000000000"

definition defaultTimeout :: int where
  "defaultTimeout = 5 * (60 * Second)"

text \<open>The interval of the ticker: \<open>duration\<close>, replaced by one second when it is 0.\<close>

definition Heartbeat_duration :: "int \<Rightarrow> int" where
  "Heartbeat_duration duration = (if duration = 0 then Second else duration)"

text \<open>
  The goroutine of \<open>Heartbeat\<close>.  The environment is the list of the results that the
  successive calls of \<open>sendHeartbeat\<close> would return (\<open>None\<close> is \<open>nil\<close>): the first
  for the immediate post, the next ones for the posts at the ticks that fire while the
  process is observed.  The loop \<open>for err != nil\<close> runs while the last post failed.
  The result is the number of posts made in the loop and whether the goroutine has
  returned (otherwise it waits for the next tick).
\<close>

fun Heartbeat_loop :: "string option \<Rightarrow> string option list \<Rightarrow> nat \<times> bool" where
  "Heartbeat_loop None outs = (0, True)"
| "Heartbeat_loop (Some e) [] = (0, False)"
| "Heartbeat_loop (Some e) (out # outs) =
    (case Heartbeat_loop out outs of (n, returned) \<Rightarrow> (Suc n, returned))"

definition Heartbeat :: "string \<Rightarrow> string \<Rightarrow> int \<Rightarrow> string option list \<Rightarrow> int \<times> nat \<times> bool" where
  "Heartbeat registry addr duration outs =
    (let d = Heartbeat_duration duration in
     case outs of
       [] \<Rightarrow> (d, 0, False)
     | out # outs' \<Rightarrow> (case Heartbeat_loop out outs' of (n, returned) \<Rightarrow> (d, Suc n, returned)))"

section \<open>server: the handshake of ServeConn (src/unnamed/part\_006, src/option/option.go)\<close>

record rpc_Option =
  MagicNumber :: int
  CodecType :: string
  ConnectTimeout :: int
  HandleTimeout :: int

text \<open>\<open>option.MagicNumber\<close>, the constant \<open>0x3bef5c\<close>.\<close>

definition option_MagicNumber :: int where
  "option_MagicNumber = 3927900"

definition GobType :: string where
  "GobType = ''application/gob''"

definition JsonType :: string where
  "JsonType = ''application/json''"

datatype NewCodecFunc = NewGobCodec

text \<open>\<open>codec.NewCodecFuncMap\<close> after \<open>init\<close>: only the gob constructor is entered.\<close>

definition NewCodecFuncMap :: "string \<Rightarrow> NewCodecFunc option" where
  "NewCodecFuncMap = Map.empty(GobType \<mapsto> NewGobCodec)"

text \<open>
  The server process as far as the handshake shows it: whether the process is running,
  what it logged, the connections it closed and the requests it served, each with its
  connection.  \<open>log.Fatalln\<close> and \<open>log.Fatalf\<close> print and call \<open>os.Exit(1)\<close>: the
  process ends, and no deferred call runs.
\<close>

datatype log_entry = BadOption | BadMagic int | BadCodecType string

record server_proc =
  running :: bool
  logged :: "log_entry list"
  closed_conns :: "nat list"
  served :: "(nat \<times> string) list"

definition log_Fatal :: "server_proc \<Rightarrow> log_entry \<Rightarrow> server_proc" where
  "log_Fatal p e = p\<lparr>running := False, logged := logged p @ [e]\<rparr>"

text \<open>
  \<open>serveCodec\<close> is kept as the list of requests it reads from the connection and
  serves; the handshake decides whether it is entered.
\<close>

definition serveCodec_requests :: "server_proc \<Rightarrow> nat \<Rightarrow> string list \<Rightarrow> server_proc" where
  "serveCodec_requests p conn reqs = p\<lparr>served := served p @ map (Pair conn) reqs\<rparr>"

text \<open>
  \<open>ServeConn\<close>: \<open>decoded\<close> is the result of decoding the \<open>Option\<close> as JSON
  (\<open>None\<close> when decoding fails), \<open>reqs\<close> the requests that follow on the connection.
  The deferred \<open>conn.Close()\<close> runs when the function returns.
\<close>

definition ServeConn :: "server_proc \<Rightarrow> nat \<Rightarrow> rpc_Option option \<Rightarrow> string list \<Rightarrow> server_proc" where
  "ServeConn p conn decoded reqs =
    (case decoded of
       None \<Rightarrow> log_Fatal p BadOption
     | Some opt \<Rightarrow>
         if MagicNumber opt \<noteq> option_MagicNumber then log_Fatal p (BadMagic (MagicNumber opt))
         else (case NewCodecFuncMap (CodecType opt) of
                 None \<Rightarrow> log_Fatal p (BadCodecType (CodecType opt))
               | Some f \<Rightarrow>
                   (let p' = serveCodec_requests p conn reqs
                    in p'\<lparr>closed_conns := closed_conns p' @ [conn]\<rparr>)))"

text \<open>Serving two connections one after the other, as two goroutines of \<open>Accept\<close> may.\<close>

definition ServeConn_then :: "server_proc \<Rightarrow> nat \<times> rpc_Option option \<times> string list
    \<Rightarrow> nat \<times> rpc_Option option \<times> string list \<Rightarrow> server_proc" where
  "ServeConn_then p a b =
    (case a of (c1, o1, r1) \<Rightarrow> case b of (c2, o2, r2) \<Rightarrow>
       let p1 = ServeConn p c1 o1 r1 in
       if running p1 then ServeConn p1 c2 o2 r2 else p1)"

section \<open>client: Call and Client (src/unnamed/part\_007)\<close>

text \<open>
  Go error values of the client: the sentinel \<open>ErrShutdown\<close>, and any other error
  with its message.
\<close>

datatype cerror = ErrShutdown | ErrMsg string

text \<open>
  Go strings are byte strings; the messages of the source that are not ASCII are given by
  their UTF-8 bytes.  \<open>msg_shutdown\<close> is the text of \<open>ErrShutdown\<close>,
  \<open>msg_read_body\<close> the prefix that \<open>receive\<close> puts before a body error, and
  \<open>msg_call_failed\<close> the prefix that \<open>Call\<close> puts before \<open>ctx.Err()\<close>.
\<close>

definition utf8 :: "nat list \<Rightarrow> string" where
  "utf8 bs = map char_of bs"

definition msg_shutdown :: string where
  "msg_shutdown = utf8 [232, 191, 158, 230, 142, 165, 229, 183, 178, 231, 187, 143, 229, 133, 179, 233, 151, 173]"

definition msg_read_body :: string where
  "msg_read_body = utf8 [232, 175, 187, 229, 143, 150, 230, 182, 136, 230, 129, 175, 228, 189, 147, 229, 135, 186, 233, 148, 153, 32]"

definition msg_call_failed :: string where
  "msg_call_failed = ''rpc client: '' @ utf8 [232, 176, 131, 231, 148, 168, 229, 164, 177, 232, 180, 165, 32]"

text \<open>\<open>err.Error()\<close>.\<close>

definition error_string :: "cerror \<Rightarrow> string" where
  "error_string e = (case e of ErrShutdown \<Rightarrow> msg_shutdown | ErrMsg m \<Rightarrow> m)"

text \<open>\<open>codec.Header\<close>.\<close>

record Header =
  h_ServiceMethod :: string
  h_Seq :: "64 word"
  h_Error :: string

text \<open>
  Calls and channels are shared by reference, so both live in a store: a \<open>*Call\<close> is a
  reference into \<open>calls\<close>, a \<open>chan *Call\<close> a reference into \<open>chans\<close> (\<open>None\<close> is
  the nil channel), and \<open>next_call\<close>, \<open>next_chan\<close> are the references that the next
  allocation returns.  A channel is its capacity and the queue of the values buffered in
  it.  Arguments and replies are opaque data.
\<close>

type_synonym call_ref = nat
type_synonym chan_ref = nat

record Call =
  Seq :: "64 word"
  ServiceMethod :: string
  Args :: string
  Reply :: string
  Error :: "cerror option"
  Done :: "chan_ref option"

record chan =
  cap :: nat
  buf :: "call_ref list"

text \<open>
  The client.  \<open>pending\<close> is the map from sequence number to \<open>*Call\<close>, as an
  association list whose order stands for the iteration order of the Go map.  The codec
  \<open>cc\<close> is seen through what the client hands to \<open>cc.Write\<close> (\<open>wire\<close>) and whether
  \<open>cc.Close\<close> was called.
\<close>

record Client =
  header :: Header
  seq :: "64 word"
  pending :: "(64 word \<times> call_ref) list"
  closing :: bool
  shutdown :: bool
  wire :: "(Header \<times> string) list"
  cc_closed :: bool

record world =
  calls :: "call_ref \<Rightarrow> Call"
  next_call :: call_ref
  chans :: "chan_ref \<Rightarrow> chan"
  next_chan :: chan_ref
  client :: Client

text \<open>
  What running a piece of the client gives: a result, a goroutine that cannot go on
  because a channel operation has no partner (this sequential model has no other
  goroutine to receive), or a panic.
\<close>

datatype 'a outcome = Ok 'a | Blocked | Panic

text \<open>
  \<open>call.done()\<close>, the send \<open>c.Done <- c\<close>: it proceeds when the buffer has room; on a
  nil channel, an unbuffered channel or a full buffer it waits.
\<close>

definition call_done :: "world \<Rightarrow> call_ref \<Rightarrow> world outcome" where
  "call_done w c =
    (case Done (calls w c) of
       None \<Rightarrow> Blocked
     | Some ch \<Rightarrow>
         if length (buf (chans w ch)) < cap (chans w ch)
         then Ok (w\<lparr>chans := (chans w)(ch := (chans w ch)\<lparr>buf := buf (chans w ch) @ [c]\<rparr>)\<rparr>)
         else Blocked)"

definition set_Error :: "world \<Rightarrow> call_ref \<Rightarrow> cerror \<Rightarrow> world" where
  "set_Error w c e = w\<lparr>calls := (calls w)(c := (calls w c)\<lparr>Error := Some e\<rparr>)\<rparr>"

text \<open>\<open>Close\<close>: \<open>cerr\<close> is what \<open>cc.Close()\<close> returns.\<close>

definition Close :: "world \<Rightarrow> cerror option \<Rightarrow> cerror option \<times> world" where
  "Close w cerr =
    (if closing (client w) then (Some ErrShutdown, w)
     else (cerr, w\<lparr>client := (client w)\<lparr>closing := True, cc_closed := True\<rparr>\<rparr>))"

definition IsAvailable :: "world \<Rightarrow> bool" where
  "IsAvailable w \<longleftrightarrow> \<not> shutdown (client w) \<and> \<not> closing (client w)"

definition registerCall :: "world \<Rightarrow> call_ref \<Rightarrow> (64 word \<times> cerror option) \<times> world" where
  "registerCall w c =
    (if closing (client w) \<or> shutdown (client w) then ((0, Some ErrShutdown), w)
     else
       let s = seq (client w);
           w1 = w\<lparr>calls := (calls w)(c := (calls w c)\<lparr>Seq := s\<rparr>)\<rparr>;
           w2 = w1\<lparr>client := (client w1)\<lparr>pending := AList.update s c (pending (client w1)),
                                          seq := s + 1\<rparr>\<rparr>
       in ((s, None), w2))"

definition removeCall :: "world \<Rightarrow> 64 word \<Rightarrow> call_ref option \<times> world" where
  "removeCall w s =
    (map_of (pending (client w)) s,
     w\<lparr>client := (client w)\<lparr>pending := AList.delete s (pending (client w))\<rparr>\<rparr>)"

text \<open>The loop of \<open>terminateCalls\<close> over the pending entries, and the function.\<close>

fun terminate_loop :: "world \<Rightarrow> cerror \<Rightarrow> (64 word \<times> call_ref) list \<Rightarrow> world outcome" where
  "terminate_loop w e [] = Ok w"
| "terminate_loop w e ((s, c) # ps) =
    (case call_done (set_Error w c e) c of
       Ok w' \<Rightarrow> terminate_loop w' e ps
     | Blocked \<Rightarrow> Blocked
     | Panic \<Rightarrow> Panic)"

definition terminateCalls :: "world \<Rightarrow> cerror \<Rightarrow> world outcome" where
  "terminateCalls w e =
    terminate_loop (w\<lparr>client := (client w)\<lparr>shutdown := True\<rparr>\<rparr>) e (pending (client w))"

text \<open>
  \<open>send\<close>: \<open>werr\<close> is what \<open>cc.Write\<close> returns for this request.  The pair handed
  to \<open>cc.Write\<close> is recorded on \<open>wire\<close> whether or not the write succeeds.
\<close>

definition send :: "world \<Rightarrow> call_ref \<Rightarrow> cerror option \<Rightarrow> world outcome" where
  "send w c werr =
    (case registerCall w c of
       ((s, Some e), w1) \<Rightarrow> call_done (set_Error w1 c e) c
     | ((s, None), w1) \<Rightarrow>
         let hd' = \<lparr>h_ServiceMethod = ServiceMethod (calls w1 c), h_Seq = s, h_Error = []\<rparr>;
             w2 = w1\<lparr>client := (client w1)\<lparr>header := hd',
                        wire := wire (client w1) @ [(hd', Args (calls w1 c))]\<rparr>\<rparr>
         in (case werr of
               None \<Rightarrow> Ok w2
             | Some e \<Rightarrow>
                 (case removeCall w2 s of
                    (None, w3) \<Rightarrow> Ok w3
                  | (Some c', w3) \<Rightarrow> call_done (set_Error w3 c' e) c')))"

text \<open>\<open>make(chan *Call, n)\<close> and the allocation of a \<open>Call\<close>.\<close>

definition make_chan :: "world \<Rightarrow> nat \<Rightarrow> chan_ref \<times> world" where
  "make_chan w n =
    (next_chan w, w\<lparr>chans := (chans w)(next_chan w := \<lparr>cap = n, buf = []\<rparr>),
                    next_chan := Suc (next_chan w)\<rparr>)"

definition new_Call :: "world \<Rightarrow> Call \<Rightarrow> call_ref \<times> world" where
  "new_Call w c =
    (next_call w, w\<lparr>calls := (calls w)(next_call w := c), next_call := Suc (next_call w)\<rparr>)"

definition Go_send :: "world \<Rightarrow> string \<Rightarrow> string \<Rightarrow> string \<Rightarrow> chan_ref \<Rightarrow> cerror option
    \<Rightarrow> (call_ref \<times> world) outcome" where
  "Go_send w sm args reply d werr =
    (case new_Call w \<lparr>Seq = 0, ServiceMethod = sm, Args = args, Reply = reply,
                       Error = None, Done = Some d\<rparr> of
       (c, w1) \<Rightarrow> (case send w1 c werr of
                     Ok w2 \<Rightarrow> Ok (c, w2)
                   | Blocked \<Rightarrow> Blocked
                   | Panic \<Rightarrow> Panic))"

text \<open>\<open>Go\<close>: the switch on \<open>done\<close>, then the allocation of the call and \<open>send\<close>.\<close>

definition Go :: "world \<Rightarrow> string \<Rightarrow> string \<Rightarrow> string \<Rightarrow> chan_ref option \<Rightarrow> cerror option
    \<Rightarrow> (call_ref \<times> world) outcome" where
  "Go w sm args reply dn werr =
    (case dn of
       None \<Rightarrow> (case make_chan w 1 of (d, w1) \<Rightarrow> Go_send w1 sm args reply d werr)
     | Some d \<Rightarrow>
         if cap (chans w d) = 0 then Panic
         else Go_send w sm args reply d werr)"

text \<open>
  \<open>Call\<close>: \<open>ctx\<close> is \<open>ctx.Err()\<close> at the \<open>select\<close> when the context is done
  (\<open>None\<close> when it is not), and \<open>pick_ctx\<close> is the choice of the \<open>select\<close> when both
  cases are ready.  With no case ready the caller waits.
\<close>

definition Call :: "world \<Rightarrow> string option \<Rightarrow> bool \<Rightarrow> string \<Rightarrow> string \<Rightarrow> string \<Rightarrow> cerror option
    \<Rightarrow> (cerror option \<times> world) outcome" where
  "Call w ctx pick_ctx sm args reply werr =
    (case make_chan w 1 of (d, w0) \<Rightarrow>
     case Go w0 sm args reply (Some d) werr of
       Blocked \<Rightarrow> Blocked
     | Panic \<Rightarrow> Panic
     | Ok (c, w1) \<Rightarrow>
         (case Done (calls w1 c) of
            None \<Rightarrow> Blocked
          | Some ch \<Rightarrow>
              let cancelled = (\<lambda>cerr. Ok (Some (ErrMsg (msg_call_failed @ cerr)),
                                            snd (removeCall w1 (Seq (calls w1 c)))))
              in (case (buf (chans w1 ch), ctx) of
                    ([], None) \<Rightarrow> Blocked
                  | ([], Some cerr) \<Rightarrow> cancelled cerr
                  | (c' # rest, Some cerr) \<Rightarrow>
                      if pick_ctx then cancelled cerr
                      else Ok (Error (calls w1 c'),
                               w1\<lparr>chans := (chans w1)(ch := (chans w1 ch)\<lparr>buf := rest\<rparr>)\<rparr>)
                  | (c' # rest, None) \<Rightarrow>
                      Ok (Error (calls w1 c'),
                          w1\<lparr>chans := (chans w1)(ch := (chans w1 ch)\<lparr>buf := rest\<rparr>)\<rparr>))))"

text \<open>
  \<open>receive\<close>: the frames that \<open>ReadHeader\<close> and \<open>ReadBody\<close> deliver are a list of
  header, body and the error of reading the body (\<open>None\<close> is \<open>nil\<close>); after the
  last frame \<open>ReadHeader\<close> fails with \<open>eof\<close>.  The loop ends at the first error and
  \<open>terminateCalls\<close> runs with it.  \<open>fmt.Errorf(h.Error)\<close> is taken as the error with
  the text \<open>h.Error\<close> (a text without formatting verbs).
\<close>

fun receive :: "world \<Rightarrow> (Header \<times> string \<times> cerror option) list \<Rightarrow> cerror \<Rightarrow> world outcome" where
  "receive w [] eof = terminateCalls w eof"
| "receive w ((h, body, berr) # fs) eof =
    (case removeCall w (h_Seq h) of
       (None, w1) \<Rightarrow>
         (case berr of None \<Rightarrow> receive w1 fs eof | Some e \<Rightarrow> terminateCalls w1 e)
     | (Some c, w1) \<Rightarrow>
         if h_Error h \<noteq> [] then
           (case call_done (set_Error w1 c (ErrMsg (h_Error h))) c of
              Ok w2 \<Rightarrow> (case berr of None \<Rightarrow> receive w2 fs eof | Some e \<Rightarrow> terminateCalls w2 e)
            | Blocked \<Rightarrow> Blocked
            | Panic \<Rightarrow> Panic)
         else
           (case berr of
              None \<Rightarrow>
                (case call_done (w1\<lparr>calls := (calls w1)(c := (calls w1 c)\<lparr>Reply := body\<rparr>)\<rparr>) c of
                   Ok w2 \<Rightarrow> receive w2 fs eof
                 | Blocked \<Rightarrow> Blocked
                 | Panic \<Rightarrow> Panic)
            | Some e \<Rightarrow>
                (case call_done (set_Error w1 c (ErrMsg (msg_read_body @ error_string e))) c of
                   Ok w2 \<Rightarrow> terminateCalls w2 e
                 | Blocked \<Rightarrow> Blocked
                 | Panic \<Rightarrow> Panic)))"

text \<open>\<open>newClientCodec\<close>: the client as created, in a store with nothing allocated.\<close>

definition newClientCodec :: world where
  "newClientCodec =
    \<lparr>calls = (\<lambda>_. \<lparr>Seq = 0, ServiceMethod = [], Args = [], Reply = [], Error = None, Done = None\<rparr>),
     next_call = 0,
     chans = (\<lambda>_. \<lparr>cap = 0, buf = []\<rparr>),
     next_chan = 0,
     client = \<lparr>header = \<lparr>h_ServiceMethod = [], h_Seq = 0, h_Error = []\<rparr>, seq = 1, pending = [],
                closing = False, shutdown = False, wire = [], cc_closed = False\<rparr>\<rparr>"

text \<open>The operations a user or the receiving goroutine performs on a client, and runs of them.\<close>

datatype client_op =
    Op_Close "cerror option"
  | Op_Go string string string "chan_ref option" "cerror option"
  | Op_Call "string option" bool string string string "cerror option"
  | Op_removeCall "64 word"
  | Op_receive "(Header \<times> string \<times> cerror option) list" cerror
  | Op_make_chan nat

fun apply_op :: "world \<Rightarrow> client_op \<Rightarrow> world outcome" where
  "apply_op w (Op_Close cerr) = Ok (snd (Close w cerr))"
| "apply_op w (Op_Go sm args reply dn werr) =
    (case Go w sm args reply dn werr of Ok (c, w') \<Rightarrow> Ok w' | Blocked \<Rightarrow> Blocked | Panic \<Rightarrow> Panic)"
| "apply_op w (Op_Call ctx pick sm args reply werr) =
    (case Call w ctx pick sm args reply werr of Ok (e, w') \<Rightarrow> Ok w' | Blocked \<Rightarrow> Blocked | Panic \<Rightarrow> Panic)"
| "apply_op w (Op_removeCall s) = Ok (snd (removeCall w s))"
| "apply_op w (Op_receive fs eof) = receive w fs eof"
| "apply_op w (Op_make_chan n) = Ok (snd (make_chan w n))"

fun run_ops :: "world \<Rightarrow> client_op list \<Rightarrow> world outcome" where
  "run_ops w [] = Ok w"
| "run_ops w (x # xs) =
    (case apply_op w x of Ok w' \<Rightarrow> run_ops w' xs | Blocked \<Rightarrow> Blocked | Panic \<Rightarrow> Panic)"

text \<open>
  The pending table as \<open>Go\<close> and \<open>registerCall\<close> build it: its entries are different
  calls, each allocated and with a non-nil \<open>Done\<close>.
\<close>

definition pending_ok :: "world \<Rightarrow> bool" where
  "pending_ok w \<longleftrightarrow> distinct (map snd (pending (client w)))
     \<and> (\<forall>(s, c) \<in> set (pending (client w)). c < next_call w \<and> Done (calls w c) \<noteq> None)"







section \<open>server: handleRequest (src/unnamed/part\_006)\<close>

text \<open>
  \<open>handleRequest\<close> runs two goroutines that meet on the unbuffered channels
  \<open>called\<close> and \<open>sent\<close>, and a timer.  It is modelled as a transition system over
  the program points of the two goroutines; a run is the list of the events that the
  scheduler, the timer and the connection choose.

  The body of a response is the reply or the sentinel \<open>invalidRequest\<close>.  The text of
  the timeout error is \<open>rpc server: \<close>, the phrase \<open>msg_handle_timeout\<close> (given by
  its UTF-8 bytes), \<open>msg_timeout_is\<close> and the timeout as the verb for strings prints it,
  which is the parameter \<open>dstr\<close> below.
\<close>

datatype body = invalidRequest | ReplyBody rvalue



















section \<open>Concrete inputs\<close>

text \<open>
  A registry whose one entry is exactly as old as the ttl at time 5, a registry with three
  entries, the descriptor of the failing method, and a server process that has just started.
\<close>

definition r_boundary :: GoRegistry where
  "r_boundary = \<lparr>timeout = 5, reg_servers = [(''tcp@a:1'', 0)]\<rparr>"

definition r_three :: GoRegistry where
  "r_three = \<lparr>timeout = 5, reg_servers = [(''c'', 8), (''b'', 2), (''a'', 6)]\<rparr>"

definition Fail_mtype :: methodType where
  "Fail_mtype = \<lparr>mt_method = Fail_method, ArgType = int_type, ReplyType = int_ptr, numCalls = 0\<rparr>"

definition fresh_proc :: server_proc where
  "fresh_proc = \<lparr>running = True, logged = [], closed_conns = [], served = []\<rparr>"

section \<open>Round-robin selection\<close>

lemma Get_round_robin_step:
  assumes "servers m \<noteq> []" and "cursor_ok m"
  shows "Get m RoundRobinSelect rnd =
    (Inr (servers m ! nat (index m mod int (length (servers m)))),
     m\<lparr>index := (index m + 1) mod int (length (servers m))\<rparr>)"
proof -
  let ?n = "int (length (servers m))"
  from assms have n: "0 < ?n" by simp
  from assms have i: "0 \<le> index m" "index m < 2 ^ 63 - 1" by (simp_all add: cursor_ok_def)
  have s1: "index m smod ?n = index m mod ?n"
    using i n by (simp add: smod_int_alt_def sgn_if abs_if)
  have w: "wrap64 (index m + 1) = index m + 1"
    using i by (simp add: wrap64_def)
  have s2: "(index m + 1) smod ?n = (index m + 1) mod ?n"
    using i n by (simp add: smod_int_alt_def sgn_if abs_if)
  have r: "0 \<le> index m mod ?n" "index m mod ?n < ?n"
    using n by simp_all
  show ?thesis
    using n r unfolding Get_def Let_def slice_at_def s1 w s2
    by (simp add: RoundRobinSelect_def RandomSelect_def)
qed

lemma Get_keeps_cursor_ok:
  assumes "cursor_ok m" and "int (length (servers m)) < 2 ^ 63"
  shows "cursor_ok (snd (Get m mode rnd))"
proof (cases "servers m = []")
  case True
  then show ?thesis using assms by (simp add: Get_def)
next
  case False
  let ?n = "int (length (servers m))"
  from False have n: "0 < ?n" by simp
  have b: "0 \<le> (index m + 1) mod ?n" "(index m + 1) mod ?n < ?n"
    using n by simp_all
  have ok': "cursor_ok (m\<lparr>index := (index m + 1) mod ?n\<rparr>)"
    using b assms(2) by (simp add: cursor_ok_def)
  show ?thesis
  proof (cases "mode = RoundRobinSelect")
    case True
    then show ?thesis using Get_round_robin_step [OF False assms(1)] ok' by simp
  next
    case False
    then show ?thesis using assms(1)
      by (simp add: Get_def Let_def)
  qed
qed

lemma NewMultiServersDiscovery_cursor_ok:
  assumes "0 \<le> rnd" and "rnd < MaxInt32 - 1"
  shows "cursor_ok (NewMultiServersDiscovery srvs rnd)"
  using assms by (simp add: NewMultiServersDiscovery_def cursor_ok_def MaxInt32_def)

lemma GetRoundRobin_times_cycle:
  assumes "servers m \<noteq> []" and "cursor_ok m" and "int (length (servers m)) < 2 ^ 63"
  shows "fst (GetRoundRobin_times k m) =
    map (\<lambda>j. Inr (servers m ! ((nat (index m) + j) mod length (servers m)))) [0..<k]"
  using assms
proof (induction k arbitrary: m)
  case 0
  then show ?case by simp
next
  case (Suc k)
  let ?n = "int (length (servers m))"
  let ?m' = "m\<lparr>index := (index m + 1) mod ?n\<rparr>"
  from Suc.prems have n: "0 < ?n" by simp
  from Suc.prems have i: "0 \<le> index m" by (simp add: cursor_ok_def)
  have step: "Get m RoundRobinSelect 0 = (Inr (servers m ! nat (index m mod ?n)), ?m')"
    by (rule Get_round_robin_step) (use Suc.prems in simp_all)
  have ok': "cursor_ok ?m'"
    using Get_keeps_cursor_ok [OF Suc.prems(2) Suc.prems(3), of RoundRobinSelect 0] step by simp
  have IH: "fst (GetRoundRobin_times k ?m') =
    map (\<lambda>j. Inr (servers m ! ((nat ((index m + 1) mod ?n) + j) mod length (servers m)))) [0..<k]"
    using Suc.IH [of ?m'] Suc.prems ok' by simp
  have idx0: "nat (index m mod ?n) = (nat (index m) + 0) mod length (servers m)"
    using i n by (simp add: nat_mod_distrib)
  have idx: "\<And>j. (nat ((index m + 1) mod ?n) + j) mod length (servers m)
      = (nat (index m) + Suc j) mod length (servers m)"
  proof -
    fix j
    have "nat ((index m + 1) mod ?n) = (nat (index m) + 1) mod length (servers m)"
      using i n by (simp add: nat_mod_distrib nat_add_distrib)
    then show "(nat ((index m + 1) mod ?n) + j) mod length (servers m)
      = (nat (index m) + Suc j) mod length (servers m)"
      by (simp add: mod_add_left_eq)
  qed
  have "fst (GetRoundRobin_times (Suc k) m) =
      Inr (servers m ! nat (index m mod ?n)) # fst (GetRoundRobin_times k ?m')"
    by (simp add: step split: prod.splits)
  also have "\<dots> = Inr (servers m ! ((nat (index m) + 0) mod length (servers m)))
      # map (\<lambda>j. Inr (servers m ! ((nat (index m) + Suc j) mod length (servers m)))) [0..<k]"
    using IH idx0 idx by simp
  also have "\<dots> = map (\<lambda>j. Inr (servers m ! ((nat (index m) + j) mod length (servers m)))) [0..<Suc k]"
    by (simp only: map_upt_Suc [symmetric] upt_conv_Cons list.map) (simp add: map_Suc_upt [symmetric] del: upt_Suc)
  finally show ?case .
qed


text \<open>
  Claim C8.  For a discovery with a non-empty server list of length \<open>n\<close> and cursor
  \<open>i\<close>, \<open>Get(RoundRobinSelect)\<close> returns \<open>servers[i mod n]\<close> and leaves the cursor
  at \<open>(i + 1) mod n\<close>; \<open>k\<close> successive calls return the servers in cyclic order
  starting at index \<open>i mod n\<close>; on an empty list \<open>Get\<close> returns an error in every mode.
\<close>

theorem C8_round_robin_get:
  assumes "servers m \<noteq> []" and "cursor_ok m" and "int (length (servers m)) < 2 ^ 63"
  shows "Get m RoundRobinSelect rnd =
      (Inr (servers m ! nat (index m mod int (length (servers m)))),
       m\<lparr>index := (index m + 1) mod int (length (servers m))\<rparr>)
    \<and> fst (GetRoundRobin_times k m) =
      map (\<lambda>j. Inr (servers m ! ((nat (index m) + j) mod length (servers m)))) [0..<k]
    \<and> Get (m\<lparr>servers := []\<rparr>) mode rnd = (Inl NoServers, m\<lparr>servers := []\<rparr>)"
proof -
  have "Get (m\<lparr>servers := []\<rparr>) mode rnd = (Inl NoServers, m\<lparr>servers := []\<rparr>)"
    by (simp add: Get_def)
  with Get_round_robin_step [OF assms(1,2)] GetRoundRobin_times_cycle [OF assms]
  show ?thesis by simp
qed

theorem C8_round_robin_get_witness:
  "Get \<lparr>servers = [''x'', ''y'', ''z''], index = 7\<rparr> RoundRobinSelect 0 =
      (Inr ''y'', \<lparr>servers = [''x'', ''y'', ''z''], index = 2\<rparr>)
    \<and> fst (GetRoundRobin_times 4 \<lparr>servers = [''x'', ''y'', ''z''], index = 7\<rparr>) =
      [Inr ''y'', Inr ''z'', Inr ''x'', Inr ''y'']
    \<and> Get \<lparr>servers = [], index = 7\<rparr> RandomSelect 0 = (Inl NoServers, \<lparr>servers = [], index = 7\<rparr>)"
proof -
  let ?m = "\<lparr>servers = [''x'', ''y'', ''z''], index = 7\<rparr>"
  have h1: "servers ?m \<noteq> []" by simp
  have h2: "cursor_ok ?m" by (simp add: cursor_ok_def)
  have h3: "int (length (servers ?m)) < 2 ^ 63" by simp
  have u: "[0..<4] = [0, 1, 2, 3]" by (simp add: upt_rec)
  show ?thesis
    using C8_round_robin_get [OF h1 h2 h3, of 0 4 RandomSelect] by (simp add: u)
qed

section \<open>Registry liveness\<close>

lemma aliveServers_loop_eq:
  "aliveServers_loop tmo now es (alive, tbl) =
    (alive @ map fst (filter (\<lambda>(a, s). alive_code tmo now s) es),
     filter (\<lambda>(a, s). a \<notin> fst ` {e \<in> set es. \<not> alive_code tmo now (snd e)}) tbl)"
proof (induction es arbitrary: alive tbl)
  case Nil
  then show ?case by simp
next
  case (Cons e es)
  obtain addr start where e: "e = (addr, start)" by (cases e)
  have c: "(tmo = 0 \<or> start + tmo > now) = alive_code tmo now start"
    by (auto simp: alive_code_def)
  show ?case
  proof (cases "alive_code tmo now start")
    case True
    have "{x \<in> set (e # es). \<not> alive_code tmo now (snd x)} = {x \<in> set es. \<not> alive_code tmo now (snd x)}"
      using True e by auto
    then show ?thesis using True c e Cons.IH by simp
  next
    case False
    have s: "{x \<in> set (e # es). \<not> alive_code tmo now (snd x)}
        = insert e {x \<in> set es. \<not> alive_code tmo now (snd x)}"
      using False e by auto
    have "aliveServers_loop tmo now (e # es) (alive, tbl)
        = aliveServers_loop tmo now es (alive, AList.delete addr tbl)"
      using False c e by simp
    also have "\<dots> = (alive @ map fst (filter (\<lambda>(a, s). alive_code tmo now s) es),
        filter (\<lambda>(a, s). a \<notin> fst ` {x \<in> set es. \<not> alive_code tmo now (snd x)}) (AList.delete addr tbl))"
      by (rule Cons.IH)
    also have "filter (\<lambda>(a, s). a \<notin> fst ` {x \<in> set es. \<not> alive_code tmo now (snd x)}) (AList.delete addr tbl)
        = filter (\<lambda>(a, s). a \<notin> fst ` {x \<in> set (e # es). \<not> alive_code tmo now (snd x)}) tbl"
      unfolding s by (induction tbl) (auto simp: e)
    finally show ?thesis using False e by simp
  qed
qed

lemma filter_dead_keys:
  assumes "distinct (map fst es)"
  shows "filter (\<lambda>(a, s). a \<notin> fst ` {e \<in> set es. \<not> P (snd e)}) es = filter (\<lambda>(a, s). P s) es"
proof (rule filter_cong [OF refl])
  fix x assume x: "x \<in> set es"
  obtain a s where xs: "x = (a, s)" by (cases x)
  have "a \<in> fst ` {e \<in> set es. \<not> P (snd e)} \<longleftrightarrow> \<not> P s"
  proof
    assume "a \<in> fst ` {e \<in> set es. \<not> P (snd e)}"
    then obtain s' where s': "(a, s') \<in> set es" "\<not> P s'" by auto
    from assms x xs s'(1) have "s' = s" by (meson eq_key_imp_eq_value)
    with s'(2) show "\<not> P s" by simp
  next
    assume "\<not> P s"
    with x xs show "a \<in> fst ` {e \<in> set es. \<not> P (snd e)}" by force
  qed
  then show "(case x of (a, s) \<Rightarrow> a \<notin> fst ` {e \<in> set es. \<not> P (snd e)}) = (case x of (a, s) \<Rightarrow> P s)"
    by (simp add: xs)
qed

text \<open>
  Claim C7.  As stated (alive iff \<open>now - last_heartbeat \<le> ttl\<close>) the claim fails at an
  entry whose age equals the ttl exactly: the code keeps an entry only while
  \<open>start + timeout\<close> is strictly after \<open>now\<close>.
\<close>

theorem C7_alive_boundary_counterexample:
  "alive_spec (timeout r_boundary) 5 0
    \<and> aliveServers r_boundary 5 = ([], \<lparr>timeout = 5, reg_servers = []\<rparr>)"
  by (simp add: r_boundary_def alive_spec_def aliveServers_def AList.delete_eq)

text \<open>
  Claim C7, amended.  For every registry table (one entry per address) and query time,
  \<open>aliveServers\<close> returns in ascending sorted order exactly the addresses whose entry
  satisfies \<open>now - last_heartbeat < ttl\<close> (every address when \<open>ttl = 0\<close>), and every
  entry failing that predicate is deleted from the table during the call.
\<close>

theorem C7_aliveServers_strict:
  assumes "distinct (map fst (reg_servers r))"
  shows "fst (aliveServers r now) =
      sort (map fst (filter (\<lambda>(a, s). alive_code (timeout r) now s) (reg_servers r)))
    \<and> sorted (fst (aliveServers r now))
    \<and> set (fst (aliveServers r now)) =
      {a. \<exists>s. (a, s) \<in> set (reg_servers r) \<and> alive_code (timeout r) now s}
    \<and> snd (aliveServers r now) =
      r\<lparr>reg_servers := filter (\<lambda>(a, s). alive_code (timeout r) now s) (reg_servers r)\<rparr>"
proof -
  have l: "aliveServers_loop (timeout r) now (reg_servers r) ([], reg_servers r) =
    (map fst (filter (\<lambda>(a, s). alive_code (timeout r) now s) (reg_servers r)),
     filter (\<lambda>(a, s). alive_code (timeout r) now s) (reg_servers r))"
    by (simp add: aliveServers_loop_eq filter_dead_keys [OF assms])
  have a: "fst (aliveServers r now) =
      sort (map fst (filter (\<lambda>(a, s). alive_code (timeout r) now s) (reg_servers r)))"
    by (simp add: aliveServers_def l)
  have b: "snd (aliveServers r now) =
      r\<lparr>reg_servers := filter (\<lambda>(a, s). alive_code (timeout r) now s) (reg_servers r)\<rparr>"
    by (simp add: aliveServers_def l)
  have c: "set (fst (aliveServers r now)) =
      {a. \<exists>s. (a, s) \<in> set (reg_servers r) \<and> alive_code (timeout r) now s}"
    unfolding a by force
  have d: "sorted (fst (aliveServers r now))"
    unfolding a by simp
  from a b c d show ?thesis by simp
qed

theorem C7_aliveServers_strict_witness:
  "distinct (map fst (reg_servers r_three))
    \<and> aliveServers r_three 10 = ([''a'', ''c''], \<lparr>timeout = 5, reg_servers = [(''c'', 8), (''a'', 6)]\<rparr>)"
proof -
  have h: "distinct (map fst (reg_servers r_three))" by (simp add: r_three_def)
  have "fst (aliveServers r_three 10) = [''a'', ''c'']
      \<and> snd (aliveServers r_three 10) = \<lparr>timeout = 5, reg_servers = [(''c'', 8), (''a'', 6)]\<rparr>"
    using C7_aliveServers_strict [OF h, of 10]
    by (simp add: r_three_def alive_code_def)
  then show ?thesis using h by (simp add: prod_eq_iff)
qed


section \<open>Method registration and the invocation counter\<close>

lemma call_numCalls: "numCalls (fst (call s m argv replyv)) = numCalls m + 1"
  by (simp add: call_def Let_def split: prod.splits)

lemma call_all_length: "length (snd (call_all s m invs)) = length invs"
proof (induction invs arbitrary: m)
  case Nil
  then show ?case by simp
next
  case (Cons inv invs)
  obtain argv replyv where inv: "inv = (argv, replyv)" by (cases inv)
  obtain m' reply' e where c: "call s m argv replyv = (m', reply', e)"
    by (cases "call s m argv replyv")
  show ?case
    using Cons.IH [of m'] by (auto simp: inv c split: prod.splits)
qed

lemma call_all_numCalls:
  "numCalls (fst (call_all s m invs)) = numCalls m + word_of_nat (length invs)"
proof (induction invs arbitrary: m)
  case Nil
  then show ?case by simp
next
  case (Cons inv invs)
  obtain argv replyv where inv: "inv = (argv, replyv)" by (cases inv)
  obtain m' reply' e where c: "call s m argv replyv = (m', reply', e)"
    by (cases "call s m argv replyv")
  have m': "numCalls m' = numCalls m + 1"
    using call_numCalls [of s m argv replyv] c by simp
  have "numCalls (fst (call_all s m (inv # invs))) = numCalls (fst (call_all s m' invs))"
    by (simp add: inv c split: prod.splits)
  also have "\<dots> = numCalls m' + word_of_nat (length invs)"
    by (rule Cons.IH)
  finally show ?case by (simp add: m')
qed

lemma successes_failures: "successes rs + failures rs = length rs"
  unfolding successes_def failures_def by (induction rs) auto

text \<open>
  Claim C5.  The code retains a method whose reply input is not a pointer: the method
  \<open>Bad(arg int, reply int) error\<close> passes every test of \<open>registerMethods\<close> and is
  stored in the method map, although it fails the eligibility invariant; shaping its
  reply container then panics in \<open>newReplyv\<close>.
\<close>

theorem C5_non_pointer_reply_registered:
  "\<not> eligible_spec Bad_method
    \<and> map_of (smethod Foo_service) ''Bad'' =
        Some \<lparr>mt_method = Bad_method, ArgType = int_type, ReplyType = int_type, numCalls = 0\<rparr>
    \<and> newReplyv \<lparr>mt_method = Bad_method, ArgType = int_type, ReplyType = int_type, numCalls = 0\<rparr>
        = Inl ReflectPanic"
  by (simp add: eligible_spec_def Foo_service_def registerMethods_def registerMethod_def
      Bad_method_def Fail_method_def int_type_def int_ptr_def Foo_ptr_def errorType_def
      isExportedOrBuiltinType_def newReplyv_def Let_def)

text \<open>
  Claim C6.  As stated (the counter equals the number of successful invocations) the claim
  fails: one invocation that returns an error leaves the counter at 1 with no successful
  invocation in the sequence.
\<close>

theorem C6_failed_call_counted_counterexample:
  "map_of (smethod Foo_service) ''Fail'' = Some Fail_mtype
    \<and> successes (snd (call_all Foo_service Fail_mtype [(Zero int_type, PtrTo (Zero int_type))])) = 0
    \<and> NumCalls (fst (call_all Foo_service Fail_mtype [(Zero int_type, PtrTo (Zero int_type))])) = 1"
  by (simp add: Foo_service_def registerMethods_def registerMethod_def Fail_mtype_def
      Bad_method_def Fail_method_def int_type_def int_ptr_def Foo_ptr_def errorType_def
      isExportedOrBuiltinType_def Let_def call_def successes_def NumCalls_def)

text \<open>
  Claim C6, amended.  For every method descriptor and every finite sequence of invocations
  of it through \<open>service.call\<close>, after the sequence the counter has grown by the number
  of invocations in the sequence, successful or failing, modulo \<open>2^64\<close>; so for a
  descriptor as registered (counter 0) and fewer than \<open>2^64\<close> invocations, all of them
  successful, it equals their number.
\<close>

theorem C6_numCalls_counts_invocations:
  "NumCalls (fst (call_all s m invs)) = NumCalls m + word_of_nat (length invs)
    \<and> unat (NumCalls (fst (call_all s (m\<lparr>numCalls := 0\<rparr>) invs)))
      = (successes (snd (call_all s (m\<lparr>numCalls := 0\<rparr>) invs))
         + failures (snd (call_all s (m\<lparr>numCalls := 0\<rparr>) invs))) mod 2 ^ 64"
proof -
  have a: "NumCalls (fst (call_all s m invs)) = NumCalls m + word_of_nat (length invs)" for m
    by (simp add: NumCalls_def call_all_numCalls)
  have "unat (NumCalls (fst (call_all s (m\<lparr>numCalls := 0\<rparr>) invs)))
      = unat (word_of_nat (length invs) :: 64 word)"
    using call_all_numCalls [of s "m\<lparr>numCalls := 0\<rparr>" invs] by (simp add: NumCalls_def)
  also have "\<dots> = length invs mod 2 ^ 64"
    by (simp add: unat_of_nat)
  finally show ?thesis
    using a [of m] by (simp add: successes_failures call_all_length)
qed


section \<open>Heartbeat and handshake at the inputs where the code departs from the claims\<close>

lemma Heartbeat_first_success:
  "Heartbeat registry addr duration (None # outs) = (Heartbeat_duration duration, 1, True)"
  by (simp add: Heartbeat_def)

lemma Heartbeat_retries_failures:
  "Heartbeat registry addr duration (Some e # Some e' # None # outs)
    = (Heartbeat_duration duration, 3, True)"
  by (simp add: Heartbeat_def)

lemma ServeConn_good_handshakes:
  "ServeConn_then fresh_proc
      (1, Some \<lparr>MagicNumber = option_MagicNumber, CodecType = GobType, ConnectTimeout = 0, HandleTimeout = 0\<rparr>, [''Foo.Sum''])
      (2, Some \<lparr>MagicNumber = option_MagicNumber, CodecType = GobType, ConnectTimeout = 0, HandleTimeout = 0\<rparr>, [''Bar.Timeout''])
    = \<lparr>running = True, logged = [], closed_conns = [1, 2], served = [(1, ''Foo.Sum''), (2, ''Bar.Timeout'')]\<rparr>"
  by (simp add: ServeConn_then_def ServeConn_def fresh_proc_def NewCodecFuncMap_def
      serveCodec_requests_def Let_def)

text \<open>
  Claim C4.  With a registry that answers every post, the helper posts one heartbeat, the
  loop condition \<open>err != nil\<close> is false at once and the goroutine returns: no heartbeat
  is reposted at any later tick.  (The default interval of one second is below the default
  ttl of five minutes.)
\<close>

theorem C4_heartbeat_stops_after_success:
  "Heartbeat ''http://localhost:9999/_gorpc_/registry'' ''tcp@a:1'' 0 [None, None, None, None]
      = (Second, 1, True)
    \<and> Heartbeat_duration 0 < defaultTimeout"
  by (simp add: Heartbeat_first_success Heartbeat_duration_def defaultTimeout_def Second_def)

text \<open>
  Claim C9.  A connection whose \<open>Option\<close> carries a wrong magic number is served no
  request, but the failure is logged with \<open>log.Fatalf\<close>: the process ends, the deferred
  close does not run, and a second connection with a correct handshake is not served
  either.
\<close>

theorem C9_bad_magic_ends_process:
  "ServeConn_then fresh_proc
      (1, Some \<lparr>MagicNumber = 0, CodecType = GobType, ConnectTimeout = 0, HandleTimeout = 0\<rparr>, [''Foo.Sum''])
      (2, Some \<lparr>MagicNumber = option_MagicNumber, CodecType = GobType, ConnectTimeout = 0, HandleTimeout = 0\<rparr>, [''Foo.Sum''])
    = \<lparr>running = False, logged = [BadMagic 0], closed_conns = [], served = []\<rparr>"
  by (simp add: ServeConn_then_def ServeConn_def log_Fatal_def fresh_proc_def option_MagicNumber_def)


section \<open>The client: completion signals and the closed client\<close>

lemma call_done_not_Panic: "call_done w c \<noteq> Panic"
  by (simp add: call_done_def split: option.splits)

lemma send_not_Panic: "send w c werr \<noteq> Panic"
  by (auto simp: send_def Let_def call_done_not_Panic split: prod.splits option.splits)

lemma Go_send_not_Panic: "Go_send w sm args reply d werr \<noteq> Panic"
  using send_not_Panic
  by (auto simp: Go_send_def split: prod.splits outcome.splits)

lemma Go_Panic_iff:
  "Go w sm args reply dn werr = Panic \<longleftrightarrow> (\<exists>d. dn = Some d \<and> cap (chans w d) = 0)"
  by (auto simp: Go_def Go_send_not_Panic split: option.splits prod.splits)

lemma Go_nil:
  "\<exists>w'. Go w sm args reply None werr = Ok (next_call w, w')
     \<and> Done (calls w' (next_call w)) = Some (next_chan w)
     \<and> next_chan w' = Suc (next_chan w)
     \<and> cap (chans w' (next_chan w)) = 1
     \<and> (case Error (calls w' (next_call w)) of
          None \<Rightarrow> buf (chans w' (next_chan w)) = [] \<and> (\<exists>w''. call_done w' (next_call w) = Ok w'')
        | Some e \<Rightarrow> buf (chans w' (next_chan w)) = [next_call w])"
  by (cases werr)
    (auto simp: Go_def make_chan_def Go_send_def new_Call_def send_def registerCall_def
      call_done_def set_Error_def removeCall_def Let_def update_conv')

text \<open>
  Claim C10.  \<open>Go\<close> with a nil \<open>done\<close> returns a call, for every client state, service
  method, argument, reply and result of the write: it neither panics nor waits.  The
  call's \<open>Done\<close> is the channel allocated by this \<open>Go\<close>, of capacity 1; on return the
  channel holds the call's one completion signal when the call has already failed, and is
  empty otherwise, so that the signal still to come is sent without waiting.  \<open>Go\<close>
  panics exactly when \<open>done\<close> is a non-nil channel of capacity 0.
\<close>

theorem C10_Go_nil_done_safe:
  "(\<exists>w'. Go w sm args reply None werr = Ok (next_call w, w')
     \<and> Done (calls w' (next_call w)) = Some (next_chan w)
     \<and> next_chan w' = Suc (next_chan w)
     \<and> cap (chans w' (next_chan w)) = 1
     \<and> (case Error (calls w' (next_call w)) of
          None \<Rightarrow> buf (chans w' (next_chan w)) = [] \<and> (\<exists>w''. call_done w' (next_call w) = Ok w'')
        | Some e \<Rightarrow> buf (chans w' (next_chan w)) = [next_call w]))
   \<and> (Go w sm args reply dn werr = Panic \<longleftrightarrow> (\<exists>d. dn = Some d \<and> cap (chans w d) = 0))"
  using Go_nil [of w sm args reply werr] Go_Panic_iff [of w sm args reply dn werr] by blast

















lemma Close_unavailable: "\<not> IsAvailable (snd (Close w cerr))"
  by (simp add: Close_def IsAvailable_def)


lemma pending_ok_cong:
  assumes "pending_ok w" and "pending (client w') = pending (client w)"
    and "next_call w' = next_call w" and "\<And>c. Done (calls w' c) = Done (calls w c)"
  shows "pending_ok w'"
  using assms by (simp add: pending_ok_def)

lemma call_done_pending_ok: "pending_ok w \<Longrightarrow> call_done w c = Ok w' \<Longrightarrow> pending_ok w'"
  by (auto simp: call_done_def pending_ok_def split: option.splits if_splits)

lemma set_Error_pending_ok: "pending_ok w \<Longrightarrow> pending_ok (set_Error w c e)"
  by (auto simp: set_Error_def pending_ok_def)

lemma removeCall_pending_ok: "pending_ok w \<Longrightarrow> pending_ok (snd (removeCall w s))"
  by (auto simp: removeCall_def pending_ok_def AList.delete_eq intro: distinct_map_filter)

lemma set_update_subset: "set (AList.update k v ps) \<subseteq> insert (k, v) (set ps)"
  by (induction ps) auto

lemma distinct_snd_update:
  "distinct (map snd ps) \<Longrightarrow> v \<notin> snd ` set ps \<Longrightarrow> distinct (map snd (AList.update k v ps))"
proof (induction ps)
  case Nil
  then show ?case by simp
next
  case (Cons p ps)
  obtain k' v' where p: "p = (k', v')" by (cases p)
  show ?case
  proof (cases "k' = k")
    case True
    with Cons.prems show ?thesis by (auto simp: p)
  next
    case False
    have "snd ` set (AList.update k v ps) \<subseteq> insert v (snd ` set ps)"
      using set_update_subset [of k v ps] by force
    with Cons show ?thesis using False by (auto simp: p)
  qed
qed

lemma registerCall_pending_ok:
  assumes "pending_ok w" and "c < next_call w" and "Done (calls w c) \<noteq> None"
    and "c \<notin> snd ` set (pending (client w))"
  shows "pending_ok (snd (registerCall w c))"
proof (cases "closing (client w) \<or> shutdown (client w)")
  case True
  then show ?thesis using assms(1) by (simp add: registerCall_def)
next
  case False
  let ?ps = "AList.update (seq (client w)) c (pending (client w))"
  have d: "distinct (map snd ?ps)"
    using assms(1,4) by (simp add: pending_ok_def distinct_snd_update)
  have "\<forall>(s, c') \<in> set ?ps. c' < next_call w \<and> Done (calls w c') \<noteq> None"
    using set_update_subset [of "seq (client w)" c "pending (client w)"] assms
    by (auto simp: pending_ok_def)
  then show ?thesis using False d
    by (auto simp: registerCall_def pending_ok_def Let_def)
qed

lemma terminate_loop_pending_ok:
  "pending_ok w \<Longrightarrow> terminate_loop w e ps = Ok w' \<Longrightarrow> pending_ok w'"
proof (induction ps arbitrary: w)
  case Nil
  then show ?case by simp
next
  case (Cons p ps)
  obtain s c where p: "p = (s, c)" by (cases p)
  from Cons.prems(2) obtain w1 where w1: "call_done (set_Error w c e) c = Ok w1"
    "terminate_loop w1 e ps = Ok w'"
    by (auto simp: p split: outcome.splits)
  from call_done_pending_ok [OF set_Error_pending_ok [OF Cons.prems(1)] w1(1)] Cons.IH w1(2)
  show ?case by blast
qed

lemma terminateCalls_pending_ok:
  assumes "pending_ok w" and "terminateCalls w e = Ok w'"
  shows "pending_ok w'"
proof -
  have "pending_ok (w\<lparr>client := (client w)\<lparr>shutdown := True\<rparr>\<rparr>)"
    using assms(1) by (simp add: pending_ok_def)
  from terminate_loop_pending_ok [OF this] assms(2) show ?thesis
    by (simp add: terminateCalls_def)
qed

lemma send_pending_ok:
  assumes "pending_ok w" and "c < next_call w" and "Done (calls w c) \<noteq> None"
    and "c \<notin> snd ` set (pending (client w))" and "send w c werr = Ok w'"
  shows "pending_ok w'"
proof -
  obtain s re w1 where r: "registerCall w c = ((s, re), w1)"
    by (cases "registerCall w c") auto
  have ok1: "pending_ok w1"
    using registerCall_pending_ok [OF assms(1-4)] r by simp
  show ?thesis
  proof (cases re)
    case (Some e)
    with assms(5) r have "call_done (set_Error w1 c e) c = Ok w'" by (simp add: send_def)
    from call_done_pending_ok [OF set_Error_pending_ok [OF ok1] this] show ?thesis .
  next
    case None
    define w2 where "w2 = w1\<lparr>client := (client w1)\<lparr>header := \<lparr>h_ServiceMethod = ServiceMethod (calls w1 c), h_Seq = s, h_Error = []\<rparr>,
                        wire := wire (client w1) @ [(\<lparr>h_ServiceMethod = ServiceMethod (calls w1 c), h_Seq = s, h_Error = []\<rparr>, Args (calls w1 c))]\<rparr>\<rparr>"
    have ok2: "pending_ok w2" using ok1 by (simp add: w2_def pending_ok_def)
    show ?thesis
    proof (cases werr)
      case None
      with assms(5) r \<open>re = None\<close> have "w' = w2" by (simp add: send_def w2_def Let_def)
      with ok2 show ?thesis by simp
    next
      case (Some e)
      have ok3: "pending_ok (snd (removeCall w2 s))" by (rule removeCall_pending_ok [OF ok2])
      show ?thesis
      proof (cases "fst (removeCall w2 s)")
        case None
        with assms(5) r \<open>re = None\<close> Some have "w' = snd (removeCall w2 s)"
          by (simp add: send_def w2_def Let_def split: prod.splits)
        with ok3 show ?thesis by simp
      next
        case (Some c')
        with assms(5) r \<open>re = None\<close> \<open>werr = Some e\<close>
        have "call_done (set_Error (snd (removeCall w2 s)) c' e) c' = Ok w'"
          by (simp add: send_def w2_def Let_def split: prod.splits)
        from call_done_pending_ok [OF set_Error_pending_ok [OF ok3] this] show ?thesis .
      qed
    qed
  qed
qed

lemma Go_send_pending_ok:
  assumes "pending_ok w" and "Go_send w sm args reply d werr = Ok (c, w')"
  shows "pending_ok w'"
proof -
  let ?cl = "\<lparr>Seq = 0, ServiceMethod = sm, Args = args, Reply = reply, Error = None, Done = Some d\<rparr>"
  let ?w1 = "snd (new_Call w ?cl)"
  have fresh: "next_call w \<notin> snd ` set (pending (client w))"
    using assms(1) by (force simp: pending_ok_def)
  have ok1: "pending_ok ?w1"
    using assms(1) by (auto simp: pending_ok_def new_Call_def)
  from assms(2) have s: "send ?w1 (next_call w) werr = Ok w'"
    by (auto simp: Go_send_def new_Call_def split: outcome.splits)
  show ?thesis
    by (rule send_pending_ok [OF ok1 _ _ _ s]) (use fresh in \<open>simp_all add: new_Call_def\<close>)
qed

lemma make_chan_pending_ok: "pending_ok w \<Longrightarrow> pending_ok (snd (make_chan w n))"
  by (simp add: make_chan_def pending_ok_def)

lemma Go_pending_ok:
  assumes "pending_ok w" and "Go w sm args reply dn werr = Ok (c, w')"
  shows "pending_ok w'"
proof (cases dn)
  case None
  with assms(2) have "Go_send (snd (make_chan w 1)) sm args reply (next_chan w) werr = Ok (c, w')"
    by (simp add: Go_def make_chan_def)
  from Go_send_pending_ok [OF make_chan_pending_ok [OF assms(1)] this] show ?thesis .
next
  case (Some d)
  with assms(2) have "Go_send w sm args reply d werr = Ok (c, w')"
    by (simp add: Go_def split: if_splits)
  from Go_send_pending_ok [OF assms(1) this] show ?thesis .
qed

lemma Call_pending_ok:
  assumes "pending_ok w" and "Call w ctx pick sm args reply werr = Ok (r, w')"
  shows "pending_ok w'"
proof -
  let ?w0 = "snd (make_chan w 1)"
  from assms(2) obtain c w1 where g: "Go ?w0 sm args reply (Some (next_chan w)) werr = Ok (c, w1)"
    by (auto simp: Call_def make_chan_def split: outcome.splits)
  have ok1: "pending_ok w1"
    by (rule Go_pending_ok [OF make_chan_pending_ok [OF assms(1)] g])
  from assms(2) g have "w' = snd (removeCall w1 (Seq (calls w1 c)))
      \<or> (pending (client w') = pending (client w1) \<and> next_call w' = next_call w1 \<and> calls w' = calls w1)"
    by (auto simp: Call_def make_chan_def Let_def split: option.splits list.splits if_splits)
  then show ?thesis
  proof
    assume "w' = snd (removeCall w1 (Seq (calls w1 c)))"
    then show ?thesis using removeCall_pending_ok [OF ok1] by simp
  next
    assume "pending (client w') = pending (client w1) \<and> next_call w' = next_call w1 \<and> calls w' = calls w1"
    then show ?thesis using ok1 by (simp add: pending_ok_def)
  qed
qed

lemma set_Reply_pending_ok:
  "pending_ok w \<Longrightarrow> pending_ok (w\<lparr>calls := (calls w)(c := (calls w c)\<lparr>Reply := b\<rparr>)\<rparr>)"
  by (auto simp: pending_ok_def)

lemma receive_pending_ok: "pending_ok w \<Longrightarrow> receive w fs eof = Ok w' \<Longrightarrow> pending_ok w'"
proof (induction fs arbitrary: w)
  case Nil
  then show ?case by (auto dest: terminateCalls_pending_ok)
next
  case (Cons f fs)
  obtain h body berr where f: "f = (h, body, berr)" by (cases f)
  have ok1: "pending_ok (snd (removeCall w (h_Seq h)))"
    by (rule removeCall_pending_ok [OF Cons.prems(1)])
  from Cons.prems(2) ok1 show ?case
    by (auto simp: f split: prod.splits option.splits if_splits outcome.splits
        dest: terminateCalls_pending_ok Cons.IH call_done_pending_ok [OF set_Error_pending_ok]
          call_done_pending_ok [OF set_Reply_pending_ok])
qed

lemma apply_op_pending_ok:
  assumes "pending_ok w" and "apply_op w x = Ok w'"
  shows "pending_ok w'"
proof (cases x)
  case (Op_Close cerr)
  with assms show ?thesis by (auto simp: Close_def pending_ok_def split: if_splits)
next
  case (Op_Go sm args reply dn werr)
  with assms show ?thesis by (auto split: outcome.splits dest: Go_pending_ok)
next
  case (Op_Call ctx pick sm args reply werr)
  with assms show ?thesis by (auto split: outcome.splits dest: Call_pending_ok)
next
  case (Op_removeCall s)
  with assms show ?thesis by (auto dest: removeCall_pending_ok)
next
  case (Op_receive fs eof)
  with assms show ?thesis by (auto dest: receive_pending_ok)
next
  case (Op_make_chan n)
  with assms show ?thesis by (auto dest: make_chan_pending_ok)
qed

lemma run_ops_pending_ok:
  "pending_ok w \<Longrightarrow> run_ops w ops = Ok w' \<Longrightarrow> pending_ok w'"
proof (induction ops arbitrary: w)
  case Nil
  then show ?case by simp
next
  case (Cons x xs)
  from Cons.prems(2) obtain w1 where w1: "apply_op w x = Ok w1" "run_ops w1 xs = Ok w'"
    by (auto split: outcome.splits)
  from apply_op_pending_ok [OF Cons.prems(1) w1(1)] Cons.IH w1(2) show ?case by blast
qed

lemma reachable_pending_ok:
  assumes "run_ops newClientCodec ops = Ok w"
  shows "pending_ok w"
proof -
  have "pending_ok newClientCodec" by (simp add: pending_ok_def newClientCodec_def)
  from run_ops_pending_ok [OF this assms] show ?thesis .
qed









section \<open>The handler timeout\<close>











end
